theory Spec2Isabelle
  imports Complex_Main
begin

section \<open>Data model of brazil\_cylinder.cpp\<close>

text \<open>
  The driver is one class, \<^verbatim>\<open>Quantum\<close>, with two hooks that the particle engine calls:
  \<^verbatim>\<open>setupInitialConditions\<close> once, and \<^verbatim>\<open>actionsAfterTimeStep\<close> once per time step.
  The engine itself (time integration, contact forces, the solve loop) is a library outside
  this repository; the model takes from it only what the hooks read: the domain bounds, the
  current time and the time step.

  A C++ \<^verbatim>\<open>double\<close> is idealised as a \<^typ>\<open>real\<close>: comparisons and additions are exact.
  Where a statement below depends on a sum being exact, it is stated for values that a
  double holds exactly. The C++ \<^verbatim>\<open>int\<close> counter has 32 bits: it is an \<^typ>\<open>int\<close> whose
  increment wraps around, written out in \<open>wrap32\<close>.
\<close>

datatype Vec3D = Vec3D (X: real) (Y: real) (Z: real)

text \<open>The global variables, lines 10 to 17. No statement of the program assigns to them.\<close>

record config =
  big_particle_radius :: real
  small_particle_radius :: real
  eps :: real
  stop_flow :: real
  oscillation_amplitude :: real
  pulse_interval :: real
  stop_kick :: real

definition globals :: config where
  "globals = \<lparr> big_particle_radius = 0.08, small_particle_radius = 0.02, eps = 0.2,
     stop_flow = 1.0, oscillation_amplitude = 1.0, pulse_interval = 0.25, stop_kick = 20.0 \<rparr>"

text \<open>The bounding box that \<^verbatim>\<open>getXMin()\<close> \<dots> \<^verbatim>\<open>getZMax()\<close> read.\<close>

record domain =
  xMin :: real
  xMax :: real
  yMin :: real
  yMax :: real
  zMin :: real
  zMax :: real

text \<open>
  \<^verbatim>\<open>main\<close> sets the three maxima to 1, 1 and 3 and leaves the minima at the engine's
  default, taken here as 0.
\<close>

definition main_domain :: domain where
  "main_domain = \<lparr> xMin = 0, xMax = 1, yMin = 0, yMax = 1, zMin = 0, zMax = 3 \<rparr>"

record SphericalParticle =
  p_radius :: real
  p_position :: Vec3D
  p_velocity :: Vec3D

text \<open>
  The two kinds of wall the program creates. An axisymmetric wall has a position, an
  orientation (its axis) and a list of (normal, point) pairs added with \<^verbatim>\<open>addObject\<close>;
  an infinite wall has a normal and a point.
\<close>

datatype shape =
    AxisymmetricIntersectionOfWalls (w_position: Vec3D) (w_orientation: Vec3D)
      (w_objects: "(Vec3D \<times> Vec3D) list")
  | InfiniteWall (w_normal: Vec3D) (w_point: Vec3D)

record wall =
  w_shape :: shape
  w_velocity :: Vec3D

record CubeInsertionBoundary =
  particleToCopy :: SphericalParticle
  maxFailed :: nat
  posMin :: Vec3D
  posMax :: Vec3D
  velMin :: Vec3D
  velMax :: Vec3D
  volumeFlowRate :: real

text \<open>
  What one invocation of \<^verbatim>\<open>actionsAfterTimeStep\<close> did to the engine's objects: the value
  passed to \<^verbatim>\<open>setVolumeFlowRate\<close> (line 75), the velocity passed to \<^verbatim>\<open>setVelocity\<close>
  by the kick branch (line 77), or the velocity passed by the branch after \<^verbatim>\<open>stop_kick\<close>
  (line 81).
\<close>

datatype action = StopFlow real | Kick Vec3D | Rest Vec3D

text \<open>
  The state the hooks work on: the three object handlers (objects in the order they were
  added), the two \<^verbatim>\<open>static\<close> locals of \<^verbatim>\<open>actionsAfterTimeStep\<close>, and a log of the setter
  calls made so far, each with the time of the step that made it. The log is not in the
  program; it records its effects in order.
\<close>

record sim =
  wallHandler :: "wall list"
  particleHandler :: "SphericalParticle list"
  boundaryHandler :: "CubeInsertionBoundary list"
  kick_count :: int
  kick_interval_counter :: real
  trace :: "(real \<times> action) list"

text \<open>
  A freshly constructed \<^verbatim>\<open>Quantum\<close>: empty handlers, and the statics at their initialisers
  (lines 71 and 72).
\<close>

definition fresh :: sim where
  "fresh = \<lparr> wallHandler = [], particleHandler = [], boundaryHandler = [],
     kick_count = 0, kick_interval_counter = 1.5, trace = [] \<rparr>"

datatype error = NoLastObject

section \<open>setupInitialConditions\<close>

definition mid :: "domain \<Rightarrow> Vec3D" where
  "mid d = Vec3D ((xMin d + xMax d) / 2) ((yMin d + yMax d) / 2) ((zMin d + zMax d) / 2)"

text \<open>
  Lines 21 to 68. \<^verbatim>\<open>copyAndAddObject\<close> appends to its handler. A wall and a particle start
  with the engine's default velocity and position, zero. The species argument has no part
  in any property stated below and is left out.
\<close>

definition setupInitialConditions :: "config \<Rightarrow> domain \<Rightarrow> sim \<Rightarrow> sim" where
  "setupInitialConditions cfg d s =
    (let m = mid d;
         w = \<lparr> w_shape = AxisymmetricIntersectionOfWalls (Vec3D (X m) (Y m) 0) (Vec3D 0 0 1)
                  [(Vec3D 1 0 0, Vec3D ((xMax d - xMin d) / 4) 0 0)],
               w_velocity = Vec3D 0 0 0 \<rparr>;
         p1 = \<lparr> p_radius = big_particle_radius cfg,
                p_position = Vec3D (X m) (Y m) (2 * big_particle_radius cfg),
                p_velocity = Vec3D 0 0 0 \<rparr>;
         p0 = \<lparr> p_radius = small_particle_radius cfg,
                p_position = Vec3D 0 0 0,
                p_velocity = Vec3D 0 0 0 \<rparr>;
         ib = \<lparr> particleToCopy = p0, maxFailed = 1,
                posMin = Vec3D (X m - eps cfg) (Y m - eps cfg) (Z m - eps cfg),
                posMax = Vec3D (X m + eps cfg) (Y m + eps cfg) (Z m + eps cfg),
                velMin = Vec3D 0 0 0, velMax = Vec3D 0 0 0,
                volumeFlowRate = 1 \<rparr>;
         top_wall = \<lparr> w_shape = InfiniteWall (Vec3D 0 0 1) (Vec3D 0 0 (zMax d)),
                      w_velocity = Vec3D 0 0 0 \<rparr>;
         bottom_wall = \<lparr> w_shape = InfiniteWall (Vec3D 0 0 (- 1)) (Vec3D 0 0 0),
                         w_velocity = Vec3D 0 0 0 \<rparr>
     in s \<lparr> wallHandler := wallHandler s @ [w, top_wall, bottom_wall],
            particleHandler := particleHandler s @ [p1],
            boundaryHandler := boundaryHandler s @ [ib] \<rparr>)"

section \<open>actionsAfterTimeStep\<close>

text \<open>
  \<^verbatim>\<open>handler.getLastObject()->setter(v)\<close>: the last object of the handler is updated in
  place; on an empty handler there is no last object and the call fails. Every boundary
  this program adds is a \<^verbatim>\<open>CubeInsertionBoundary\<close>, so the \<^verbatim>\<open>dynamic_cast\<close> of line 75
  succeeds whenever there is a last object.
\<close>

definition onLastObject :: "('a \<Rightarrow> 'a) \<Rightarrow> 'a list \<Rightarrow> 'a list option" where
  "onLastObject f xs = (if xs = [] then None else Some (butlast xs @ [f (last xs)]))"

definition setVolumeFlowRate :: "real \<Rightarrow> CubeInsertionBoundary \<Rightarrow> CubeInsertionBoundary" where
  "setVolumeFlowRate r b = b \<lparr> volumeFlowRate := r \<rparr>"

definition setVelocity :: "Vec3D \<Rightarrow> wall \<Rightarrow> wall" where
  "setVelocity v w = w \<lparr> w_velocity := v \<rparr>"

text \<open>
  Lines 70 to 83, with \<open>t\<close> for \<^verbatim>\<open>getTime()\<close> and \<open>dt\<close> for \<^verbatim>\<open>getTimeStep()\<close>. The three
  tests form one \<^verbatim>\<open>if / else if / else if\<close> chain, in this order. \<^verbatim>\<open>pow(-1, kick_count)\<close>
  is the integer power \<open>powi\<close>.
\<close>

text \<open>
  The value of a 32-bit two's complement \<^verbatim>\<open>int\<close> after an arithmetic result \<open>k\<close>: inside
  the range it is \<open>k\<close>, and one more than 2147483647 is -2147483648. (The C++ standard
  leaves the overflow undefined; this is what the usual targets compute.)
\<close>

definition wrap32 :: "int \<Rightarrow> int" where
  "wrap32 k = (k + 2147483648) mod 4294967296 - 2147483648"

definition actionsAfterTimeStep :: "config \<Rightarrow> real \<Rightarrow> real \<Rightarrow> sim \<Rightarrow> error + sim" where
  "actionsAfterTimeStep cfg t dt s =
    (if t < stop_flow cfg \<and> t + dt > stop_flow cfg then
       (case onLastObject (setVolumeFlowRate 0) (boundaryHandler s) of
          None \<Rightarrow> Inl NoLastObject
        | Some bs \<Rightarrow> Inr (s \<lparr> boundaryHandler := bs, trace := trace s @ [(t, StopFlow 0)] \<rparr>))
     else if t > kick_interval_counter s \<and> t < kick_interval_counter s + pulse_interval cfg then
       (let v = Vec3D 0 0 (oscillation_amplitude cfg * ((- 1) powi kick_count s)) in
        case onLastObject (setVelocity v) (wallHandler s) of
          None \<Rightarrow> Inl NoLastObject
        | Some ws \<Rightarrow> Inr (s \<lparr> wallHandler := ws,
              kick_interval_counter := kick_interval_counter s + pulse_interval cfg,
              kick_count := wrap32 (kick_count s + 1),
              trace := trace s @ [(t, Kick v)] \<rparr>))
     else if t > stop_kick cfg then
       (case onLastObject (setVelocity (Vec3D 0 0 0)) (wallHandler s) of
          None \<Rightarrow> Inl NoLastObject
        | Some ws \<Rightarrow> Inr (s \<lparr> wallHandler := ws, trace := trace s @ [(t, Rest (Vec3D 0 0 0))] \<rparr>))
     else Inr s)"

section \<open>Runs\<close>

text \<open>
  The engine's loop calls the hook once per step, in order. A run is the list of the times
  of these calls; the time step is the same on every call. A failed call ends the run.
\<close>

fun run :: "config \<Rightarrow> real \<Rightarrow> real list \<Rightarrow> sim \<Rightarrow> error + sim" where
  "run cfg dt [] s = Inr s"
| "run cfg dt (t # ts) s =
     (case actionsAfterTimeStep cfg t dt s of
        Inl e \<Rightarrow> Inl e
      | Inr s' \<Rightarrow> run cfg dt ts s')"

text \<open>
  A clock that starts at 0 and advances by \<open>dt\<close> after every call: the calls number \<open>a\<close>
  up to \<open>b - 1\<close> happen at the times \<open>a * dt\<close>, \<dots>, \<open>(b - 1) * dt\<close>.
\<close>

definition ticks :: "real \<Rightarrow> nat \<Rightarrow> nat \<Rightarrow> real list" where
  "ticks dt a b = map (\<lambda>k. real k * dt) [a..<b]"

text \<open>The velocities written by the kick branch, in order, and all velocities written.\<close>

fun kicks :: "(real \<times> action) list \<Rightarrow> Vec3D list" where
  "kicks [] = []"
| "kicks ((t, Kick v) # es) = v # kicks es"
| "kicks (e # es) = kicks es"

fun velocities :: "(real \<times> action) list \<Rightarrow> Vec3D list" where
  "velocities [] = []"
| "velocities ((t, Kick v) # es) = v # velocities es"
| "velocities ((t, Rest v) # es) = v # velocities es"
| "velocities (e # es) = velocities es"

fun flow_writes :: "(real \<times> action) list \<Rightarrow> real list" where
  "flow_writes [] = []"
| "flow_writes ((t, StopFlow r) # es) = r # flow_writes es"
| "flow_writes (e # es) = flow_writes es"

definition floor_velocity :: "sim \<Rightarrow> Vec3D" where
  "floor_velocity s = w_velocity (last (wallHandler s))"

definition flow_rate :: "sim \<Rightarrow> real" where
  "flow_rate s = volumeFlowRate (last (boundaryHandler s))"

text \<open>The scene of the program as configured: \<^verbatim>\<open>main\<close>'s bounds and the globals.\<close>

definition scene :: sim where
  "scene = setupInitialConditions globals main_domain fresh"

text \<open>The tests of lines 74 and 76, named.\<close>

abbreviation flow_edge :: "config \<Rightarrow> real \<Rightarrow> real \<Rightarrow> bool" where
  "flow_edge cfg t dt \<equiv> t < stop_flow cfg \<and> t + dt > stop_flow cfg"

abbreviation in_kick_window :: "config \<Rightarrow> sim \<Rightarrow> real \<Rightarrow> bool" where
  "in_kick_window cfg s t \<equiv>
     t > kick_interval_counter s \<and> t < kick_interval_counter s + pulse_interval cfg"

text \<open>Both handlers hold an object, so that \<^verbatim>\<open>getLastObject\<close> succeeds.\<close>

definition ready :: "sim \<Rightarrow> bool" where
  "ready s \<longleftrightarrow> wallHandler s \<noteq> [] \<and> boundaryHandler s \<noteq> []"

text \<open>Centre and half-widths of the cuboid of an insertion boundary.\<close>

definition centre :: "CubeInsertionBoundary \<Rightarrow> Vec3D" where
  "centre b = Vec3D ((X (posMin b) + X (posMax b)) / 2) ((Y (posMin b) + Y (posMax b)) / 2)
     ((Z (posMin b) + Z (posMax b)) / 2)"

definition half_width :: "CubeInsertionBoundary \<Rightarrow> Vec3D" where
  "half_width b = Vec3D ((X (posMax b) - X (posMin b)) / 2) ((Y (posMax b) - Y (posMin b)) / 2)
     ((Z (posMax b) - Z (posMin b)) / 2)"

text \<open>The velocity of kick number \<open>n\<close>, counted from 0, as the specification gives it.\<close>

definition kick_velocity :: "config \<Rightarrow> nat \<Rightarrow> Vec3D" where
  "kick_velocity cfg n = Vec3D 0 0 (oscillation_amplitude cfg * (- 1) ^ n)"

text \<open>
  The finite doubles: an integer of magnitude below \<open>2^53\<close> times a power of two with
  exponent from -1074 to 971. The sum of two doubles that is again a finite double is
  computed without rounding.
\<close>

definition binary64 :: "real \<Rightarrow> bool" where
  "binary64 x \<longleftrightarrow>
     (\<exists>m e :: int. \<bar>m\<bar> < 2 ^ 53 \<and> - 1074 \<le> e \<and> e \<le> 971 \<and> x = of_int m * 2 powi e)"

text \<open>The two statics at the end of a run, when it did not fail.\<close>

fun statics :: "error + sim \<Rightarrow> (int \<times> real) option" where
  "statics (Inl e) = None"
| "statics (Inr s) = Some (kick_count s, kick_interval_counter s)"

text \<open>The log of a stretch of steps on each of which only line 81 ran.\<close>

definition rests :: "real list \<Rightarrow> (real \<times> action) list" where
  "rests ts = map (\<lambda>t. (t, Rest (Vec3D 0 0 0))) ts"

section \<open>Properties of calls and runs\<close>

lemma run_append:
  "run cfg dt (ts @ us) s = (case run cfg dt ts s of Inl e \<Rightarrow> Inl e | Inr s' \<Rightarrow> run cfg dt us s')"
  by (induction ts arbitrary: s) (auto split: sum.splits)

lemma ready_setup: "ready (setupInitialConditions cfg d s)"
  by (simp add: ready_def setupInitialConditions_def Let_def)

lemma setup_statics:
  "kick_count (setupInitialConditions cfg d fresh) = 0"
  "kick_interval_counter (setupInitialConditions cfg d fresh) = 1.5"
  "trace (setupInitialConditions cfg d fresh) = []"
  by (simp_all add: setupInitialConditions_def fresh_def Let_def)

text \<open>After the setup no call fails: both handlers keep their objects.\<close>

lemma step_ready:
  assumes "ready s"
  shows "\<exists>s'. actionsAfterTimeStep cfg t dt s = Inr s' \<and> ready s'"
  using assms by (auto simp: ready_def actionsAfterTimeStep_def onLastObject_def Let_def)

lemma run_ready:
  "ready s \<Longrightarrow> \<exists>s'. run cfg dt ts s = Inr s' \<and> ready s'"
proof (induction ts arbitrary: s)
  case Nil
  then show ?case by simp
next
  case (Cons t ts)
  from step_ready [OF Cons.prems] obtain s1
    where s1: "actionsAfterTimeStep cfg t dt s = Inr s1" "ready s1" by blast
  from Cons.IH [OF s1(2)] s1(1) show ?case by simp
qed

text \<open>A property kept by every successful call is kept by every successful run.\<close>

lemma run_invariant:
  assumes step: "\<And>t s s'. P s \<Longrightarrow> actionsAfterTimeStep cfg t dt s = Inr s' \<Longrightarrow> P s'"
  shows "P s \<Longrightarrow> run cfg dt ts s = Inr s' \<Longrightarrow> P s'"
proof (induction ts arbitrary: s)
  case Nil
  then show ?case by simp
next
  case (Cons t ts)
  from Cons.prems(2) obtain s1
    where s1: "actionsAfterTimeStep cfg t dt s = Inr s1" and rest: "run cfg dt ts s1 = Inr s'"
    by (auto split: sum.splits)
  from step [OF Cons.prems(1) s1] have "P s1" .
  from Cons.IH [OF this rest] show ?case .
qed

text \<open>The four outcomes of a successful call, one per branch of the chain.\<close>

lemma step_cases:
  assumes "actionsAfterTimeStep cfg t dt s = Inr s'"
  obtains
    (flow) "flow_edge cfg t dt" "boundaryHandler s \<noteq> []"
      "s' = s \<lparr> boundaryHandler := butlast (boundaryHandler s) @
                  [setVolumeFlowRate 0 (last (boundaryHandler s))],
               trace := trace s @ [(t, StopFlow 0)] \<rparr>"
  | (kick) "\<not> flow_edge cfg t dt" "in_kick_window cfg s t" "wallHandler s \<noteq> []"
      "s' = s \<lparr> wallHandler := butlast (wallHandler s) @
                  [setVelocity (Vec3D 0 0 (oscillation_amplitude cfg * ((- 1) powi kick_count s)))
                     (last (wallHandler s))],
               kick_interval_counter := kick_interval_counter s + pulse_interval cfg,
               kick_count := wrap32 (kick_count s + 1),
               trace := trace s @
                  [(t, Kick (Vec3D 0 0 (oscillation_amplitude cfg * ((- 1) powi kick_count s))))] \<rparr>"
  | (rest) "\<not> flow_edge cfg t dt" "\<not> in_kick_window cfg s t" "t > stop_kick cfg"
      "wallHandler s \<noteq> []"
      "s' = s \<lparr> wallHandler := butlast (wallHandler s) @
                  [setVelocity (Vec3D 0 0 0) (last (wallHandler s))],
               trace := trace s @ [(t, Rest (Vec3D 0 0 0))] \<rparr>"
  | (idle) "\<not> flow_edge cfg t dt" "\<not> in_kick_window cfg s t" "\<not> t > stop_kick cfg" "s' = s"
  using assms
  by (auto simp: actionsAfterTimeStep_def onLastObject_def Let_def split: if_splits)

lemma kicks_append: "kicks (es @ fs) = kicks es @ kicks fs"
  by (induction es rule: kicks.induct) simp_all

lemma velocities_append: "velocities (es @ fs) = velocities es @ velocities fs"
  by (induction es rule: velocities.induct) simp_all

lemma flow_writes_append: "flow_writes (es @ fs) = flow_writes es @ flow_writes fs"
  by (induction es rule: flow_writes.induct) simp_all

lemma minus_one_powi: "0 \<le> k \<Longrightarrow> (- 1 :: real) powi k = (- 1) ^ nat k"
  by (simp add: power_int_def)

lemma minus_one_power_cases: "(- 1 :: real) ^ n = 1 \<or> (- 1 :: real) ^ n = - 1"
  by (cases "even n") simp_all

lemma minus_one_powi_cases: "(- 1 :: real) powi k = 1 \<or> (- 1 :: real) powi k = - 1"
  using minus_one_power_cases [of "nat k"] minus_one_power_cases [of "nat (- k)"]
  by (auto simp: power_int_def)

text \<open>Inside the range the counter does not wrap; wrapping keeps the parity.\<close>

lemma wrap32_id: "- 2147483648 \<le> k \<Longrightarrow> k < 2147483648 \<Longrightarrow> wrap32 k = k"
  by (simp add: wrap32_def)

lemma wrap32_succ: "wrap32 (wrap32 k + 1) = wrap32 (k + 1)"
proof -
  have "((k + 2147483648) mod 4294967296 + 1) mod 4294967296
      = (k + 2147483648 + 1) mod 4294967296"
    by (simp add: mod_add_left_eq)
  then show ?thesis by (simp add: wrap32_def add.commute add.left_commute)
qed

lemma even_wrap32: "even (wrap32 k) = even k"
proof -
  have "(k + 2147483648) mod 4294967296
      = k + 2147483648 - 4294967296 * ((k + 2147483648) div 4294967296)"
    by (simp add: minus_mult_div_eq_mod)
  then show ?thesis by (simp add: wrap32_def)
qed

lemma minus_one_powi_parity: "(- 1 :: real) powi k = (if even k then 1 else - 1)"
  by (cases "0 \<le> k") (auto simp: power_int_def even_nat_iff)

lemma minus_one_powi_wrap32: "(- 1 :: real) powi wrap32 k = (- 1) powi k"
  by (simp add: minus_one_powi_parity even_wrap32)

text \<open>Steps outside the kick window leave the schedule as it is.\<close>

lemma run_no_kick:
  assumes "\<forall>t\<in>set ts. \<not> in_kick_window cfg s t" and "run cfg dt ts s = Inr s'"
  shows "kick_count s' = kick_count s \<and> kick_interval_counter s' = kick_interval_counter s
    \<and> kicks (trace s') = kicks (trace s)"
  using assms
proof (induction ts arbitrary: s)
  case Nil
  then show ?case by simp
next
  case (Cons t ts)
  from Cons.prems(2) obtain s1
    where s1: "actionsAfterTimeStep cfg t dt s = Inr s1" and rest: "run cfg dt ts s1 = Inr s'"
    by (auto split: sum.splits)
  from Cons.prems(1) have now: "\<not> in_kick_window cfg s t" by simp
  from s1 now have same: "kick_count s1 = kick_count s
      \<and> kick_interval_counter s1 = kick_interval_counter s \<and> kicks (trace s1) = kicks (trace s)"
    by (cases rule: step_cases) (simp_all add: kicks_append)
  with Cons.prems(1) have "\<forall>t\<in>set ts. \<not> in_kick_window cfg s1 t" by simp
  from Cons.IH [OF this rest] same show ?case by simp
qed

text \<open>Steps off the flow edge leave the boundaries as they are.\<close>

lemma run_no_flow:
  assumes "\<forall>t\<in>set ts. \<not> flow_edge cfg t dt" and "run cfg dt ts s = Inr s'"
  shows "boundaryHandler s' = boundaryHandler s \<and> flow_writes (trace s') = flow_writes (trace s)"
  using assms
proof (induction ts arbitrary: s)
  case Nil
  then show ?case by simp
next
  case (Cons t ts)
  from Cons.prems(2) obtain s1
    where s1: "actionsAfterTimeStep cfg t dt s = Inr s1" and rest: "run cfg dt ts s1 = Inr s'"
    by (auto split: sum.splits)
  from Cons.prems(1) have now: "\<not> flow_edge cfg t dt" by simp
  from s1 now have same: "boundaryHandler s1 = boundaryHandler s
      \<and> flow_writes (trace s1) = flow_writes (trace s)"
    by (cases rule: step_cases) (simp_all add: flow_writes_append)
  from Cons.prems(1) have "\<forall>t\<in>set ts. \<not> flow_edge cfg t dt" by simp
  from Cons.IH [OF this rest] same show ?case by simp
qed

subsection \<open>A clock on a grid\<close>

lemma ticks_split:
  assumes "i \<le> j" and "j \<le> k"
  shows "ticks dt i k = ticks dt i j @ ticks dt j k"
proof -
  from assms upt_add_eq_append [of i j "k - j"] have "[i..<k] = [i..<j] @ [j..<k]"
    by simp
  then show ?thesis by (simp add: ticks_def)
qed

lemma ticks_single: "ticks dt j (Suc j) = [real j * dt]"
  by (simp add: ticks_def)

lemma set_ticks: "set (ticks dt i j) = (\<lambda>k. real k * dt) ` {i..<j}"
  by (simp add: ticks_def)

text \<open>
  When \<^verbatim>\<open>stop_flow\<close> is itself a multiple of the step, no step of the clock has it
  strictly between \<open>t\<close> and \<open>t + dt\<close>.
\<close>

lemma grid_no_flow_edge:
  assumes "0 < dt" and "stop_flow cfg = real c * dt"
  shows "\<not> flow_edge cfg (real k * dt) dt"
proof
  assume e: "flow_edge cfg (real k * dt) dt"
  have "real k * dt + dt = real (Suc k) * dt" by (simp add: algebra_simps)
  with e assms(2) have "real k * dt < real c * dt" "real c * dt < real (Suc k) * dt" by simp_all
  with assms(1) have "k < c" "c < Suc k" by simp_all
  then show False by simp
qed

lemma grid_flow_never_stops:
  assumes "0 < dt" and "stop_flow cfg = real c * dt" and "ready s"
  shows "\<exists>s'. run cfg dt (ticks dt i j) s = Inr s'
    \<and> boundaryHandler s' = boundaryHandler s
    \<and> flow_writes (trace s') = flow_writes (trace s)"
proof -
  from run_ready [OF assms(3)] obtain s' where r: "run cfg dt (ticks dt i j) s = Inr s'"
    by blast
  have "\<forall>t\<in>set (ticks dt i j). \<not> flow_edge cfg t dt"
    using grid_no_flow_edge [OF assms(1,2)] by (auto simp: set_ticks)
  from run_no_flow [OF this r] r show ?thesis by blast
qed

lemma kick_step:
  assumes "\<not> flow_edge cfg t dt" and "in_kick_window cfg s t" and "ready s"
  shows "\<exists>s'. actionsAfterTimeStep cfg t dt s = Inr s' \<and> ready s'
    \<and> kick_count s' = wrap32 (kick_count s + 1)
    \<and> kick_interval_counter s' = kick_interval_counter s + pulse_interval cfg
    \<and> boundaryHandler s' = boundaryHandler s
    \<and> trace s' = trace s @
         [(t, Kick (Vec3D 0 0 (oscillation_amplitude cfg * ((- 1) powi kick_count s))))]
    \<and> floor_velocity s' = Vec3D 0 0 (oscillation_amplitude cfg * ((- 1) powi kick_count s))"
  using assms
  by (auto simp: actionsAfterTimeStep_def onLastObject_def Let_def ready_def floor_velocity_def
      setVelocity_def)

text \<open>
  One round of the schedule on a grid. The threshold is step \<open>m\<close> of the clock, the pulse
  interval is \<open>b\<close> steps with \<open>b\<close> at least 2, and \<^verbatim>\<open>stop_flow\<close> is on the grid. Then the
  steps up to \<open>m\<close> are not after the threshold, and step \<open>m + 1\<close> is the kick.
\<close>

lemma kick_round:
  assumes dt: "0 < dt" and b: "2 \<le> b"
    and pi: "pulse_interval cfg = real b * dt"
    and sf: "stop_flow cfg = real c * dt"
    and thr: "kick_interval_counter s = real m * dt"
    and rdy: "ready s"
    and i: "i \<le> m + 1"
  shows "\<exists>s'. run cfg dt (ticks dt i (m + 2)) s = Inr s' \<and> ready s'
    \<and> kick_count s' = wrap32 (kick_count s + 1)
    \<and> kick_interval_counter s' = real (m + b) * dt
    \<and> boundaryHandler s' = boundaryHandler s
    \<and> kicks (trace s') = kicks (trace s) @
         [Vec3D 0 0 (oscillation_amplitude cfg * ((- 1) powi kick_count s))]
    \<and> last (trace s') = (real (m + 1) * dt,
         Kick (Vec3D 0 0 (oscillation_amplitude cfg * ((- 1) powi kick_count s))))
    \<and> floor_velocity s' = Vec3D 0 0 (oscillation_amplitude cfg * ((- 1) powi kick_count s))"
proof -
  have split: "ticks dt i (m + 2) = ticks dt i (m + 1) @ [real (m + 1) * dt]"
    using i ticks_split [of i "m + 1" "m + 2" dt] ticks_single [of dt "m + 1"] by simp
  from run_ready [OF rdy] obtain s1
    where s1: "run cfg dt (ticks dt i (m + 1)) s = Inr s1" and r1: "ready s1" by blast
  have quiet: "\<forall>t\<in>set (ticks dt i (m + 1)). \<not> in_kick_window cfg s t"
    using dt thr by (auto simp: set_ticks)
  have noflow: "\<forall>t\<in>set (ticks dt i (m + 1)). \<not> flow_edge cfg t dt"
    using grid_no_flow_edge [OF dt sf] by (auto simp: set_ticks)
  from run_no_kick [OF quiet s1] have k1: "kick_count s1 = kick_count s"
    "kick_interval_counter s1 = kick_interval_counter s" "kicks (trace s1) = kicks (trace s)"
    by simp_all
  from run_no_flow [OF noflow s1] have b1: "boundaryHandler s1 = boundaryHandler s" by simp
  have "real (m + 1) * dt < real (m + b) * dt" using dt b by simp
  then have win: "in_kick_window cfg s1 (real (m + 1) * dt)"
    using dt thr pi k1(2) by (simp add: algebra_simps)
  from kick_step [OF grid_no_flow_edge [OF dt sf] win r1] obtain s'
    where s': "actionsAfterTimeStep cfg (real (m + 1) * dt) dt s1 = Inr s'" "ready s'"
      "kick_count s' = wrap32 (kick_count s1 + 1)"
      "kick_interval_counter s' = kick_interval_counter s1 + pulse_interval cfg"
      "boundaryHandler s' = boundaryHandler s1"
      "trace s' = trace s1 @
         [(real (m + 1) * dt,
           Kick (Vec3D 0 0 (oscillation_amplitude cfg * ((- 1) powi kick_count s1))))]"
      "floor_velocity s' = Vec3D 0 0 (oscillation_amplitude cfg * ((- 1) powi kick_count s1))"
    by blast
  have "run cfg dt (ticks dt i (m + 2)) s = Inr s'"
    unfolding split run_append s1 using s'(1) by simp
  moreover have "kick_interval_counter s' = real (m + b) * dt"
    using s'(4) k1(2) thr pi by (simp add: algebra_simps)
  ultimately show ?thesis
    using s' k1 b1 by (auto simp: kicks_append)
qed

text \<open>
  The whole schedule on a grid, by induction on the number of the kick: kick \<open>n\<close> is made
  by call \<open>a + n * b + 1\<close>, whatever \<^verbatim>\<open>stop_kick\<close> is.
\<close>

lemma aligned_schedule:
  assumes dt: "0 < dt" and b: "2 \<le> b"
    and pi: "pulse_interval cfg = real b * dt"
    and sf: "stop_flow cfg = real c * dt"
    and thr: "kick_interval_counter s0 = real a * dt"
    and rdy: "ready s0"
  shows "\<exists>s. run cfg dt (ticks dt 0 (a + n * b + 2)) s0 = Inr s \<and> ready s
    \<and> kick_count s = wrap32 (kick_count s0 + int n + 1)
    \<and> kick_interval_counter s = real (a + (n + 1) * b) * dt
    \<and> boundaryHandler s = boundaryHandler s0
    \<and> last (trace s) = (real (a + n * b + 1) * dt,
         Kick (Vec3D 0 0 (oscillation_amplitude cfg * ((- 1) powi (kick_count s0 + int n)))))
    \<and> floor_velocity s
         = Vec3D 0 0 (oscillation_amplitude cfg * ((- 1) powi (kick_count s0 + int n)))"
proof (induction n)
  case 0
  from kick_round [OF dt b pi sf thr rdy, of 0] show ?case by auto
next
  case (Suc n)
  then obtain s where s: "run cfg dt (ticks dt 0 (a + n * b + 2)) s0 = Inr s" "ready s"
    "kick_count s = wrap32 (kick_count s0 + int n + 1)"
    "kick_interval_counter s = real (a + (n + 1) * b) * dt"
    "boundaryHandler s = boundaryHandler s0"
    by blast
  have le: "a + n * b + 2 \<le> (a + (n + 1) * b) + 1" using b by simp
  from kick_round [OF dt b pi sf s(4) s(2) le] obtain s'
    where s': "run cfg dt (ticks dt (a + n * b + 2) (a + (n + 1) * b + 2)) s = Inr s'" "ready s'"
    "kick_count s' = wrap32 (kick_count s + 1)"
    "kick_interval_counter s' = real (a + (n + 1) * b + b) * dt"
    "boundaryHandler s' = boundaryHandler s"
    "last (trace s') = (real (a + (n + 1) * b + 1) * dt,
         Kick (Vec3D 0 0 (oscillation_amplitude cfg * ((- 1) powi kick_count s))))"
    "floor_velocity s' = Vec3D 0 0 (oscillation_amplitude cfg * ((- 1) powi kick_count s))"
    by blast
  have "ticks dt 0 (a + Suc n * b + 2)
      = ticks dt 0 (a + n * b + 2) @ ticks dt (a + n * b + 2) (a + (n + 1) * b + 2)"
    using ticks_split [of 0 "a + n * b + 2" "a + Suc n * b + 2" dt] by simp
  with s(1) s'(1) have "run cfg dt (ticks dt 0 (a + Suc n * b + 2)) s0 = Inr s'"
    by (simp add: run_append)
  moreover have "wrap32 (kick_count s + 1) = wrap32 (kick_count s0 + int (Suc n) + 1)"
    using s(3) wrap32_succ [of "kick_count s0 + int n + 1"] by (simp add: algebra_simps)
  moreover have "(- 1 :: real) powi kick_count s = (- 1) powi (kick_count s0 + int (Suc n))"
    using s(3) minus_one_powi_wrap32 [of "kick_count s0 + int n + 1"]
    by (simp add: algebra_simps)
  ultimately show ?case
    using s' s by (auto simp: algebra_simps)
qed

text \<open>The program as configured, on the clock of \<^verbatim>\<open>main\<close>: a step is 0.0001.\<close>

lemma configured_grid:
  "pulse_interval globals = real 2500 * 0.0001"
  "stop_flow globals = real 10000 * 0.0001"
  "kick_interval_counter scene = real 15000 * 0.0001"
  "ready scene"
  "kick_count scene = 0"
  "oscillation_amplitude globals = 1"
  by (simp_all add: globals_def scene_def setup_statics ready_setup)

section \<open>The phase controller after stop\_kick\<close>

text \<open>
  C1. The claim: on every step with \<open>t > stop_kick\<close> no kick fires and the floor velocity
  is set to zero, whatever the kick state. The test for the kick window (line 76) comes
  before the test for \<^verbatim>\<open>stop_kick\<close> (line 80) in one \<^verbatim>\<open>else if\<close> chain, and the window test
  does not look at \<^verbatim>\<open>stop_kick\<close>. In the run as configured, with the clock on multiples of
  0.0001, the call number 200001 is at time 20.0001, after \<^verbatim>\<open>stop_kick = 20.0\<close>; it is
  kick number 74: it writes the velocity \<open>(0, 0, 1)\<close> and moves the threshold to 20.25.
\<close>

theorem kick_after_stop_kick:
  "\<exists>s. run globals 0.0001 (ticks 0.0001 0 200002) scene = Inr s
     \<and> last (trace s) = (20.0001, Kick (Vec3D 0 0 1))
     \<and> floor_velocity s = Vec3D 0 0 1
     \<and> kick_count s = 75
     \<and> kick_interval_counter s = 20.25
     \<and> stop_kick globals < 20.0001"
proof -
  have sk: "stop_kick globals < 20.0001" by (simp add: globals_def)
  have pw: "(- 1 :: real) powi (74 :: int) = 1" by (simp add: power_int_def)
  from aligned_schedule [OF _ _ configured_grid(1,2,3,4), of 74] sk show ?thesis
    by (auto simp: configured_grid pw wrap32_def)
qed

section \<open>The flow shutoff\<close>

text \<open>
  What holds of the flow rate in every run from the setup: it is 1 until the first flow
  write and 0 from then on, and every flow write is a 0.
\<close>

lemma step_flow_log:
  assumes "boundaryHandler s \<noteq> []
      \<and> flow_rate s = (if flow_writes (trace s) = [] then r else 0)
      \<and> set (flow_writes (trace s)) \<subseteq> {0}"
    and "actionsAfterTimeStep cfg t dt s = Inr s'"
  shows "boundaryHandler s' \<noteq> []
      \<and> flow_rate s' = (if flow_writes (trace s') = [] then r else 0)
      \<and> set (flow_writes (trace s')) \<subseteq> {0}"
  using assms(2,1)
  by (cases rule: step_cases)
    (auto simp: flow_writes_append flow_rate_def setVolumeFlowRate_def)

lemma flow_rate_follows_log:
  "\<exists>s'. run cfg dt ts (setupInitialConditions cfg d fresh) = Inr s'
     \<and> flow_rate s' = (if flow_writes (trace s') = [] then 1 else 0)
     \<and> set (flow_writes (trace s')) \<subseteq> {0}"
proof -
  let ?s = "setupInitialConditions cfg d fresh"
  let ?P = "\<lambda>s. boundaryHandler s \<noteq> []
      \<and> flow_rate s = (if flow_writes (trace s) = [] then 1 else 0)
      \<and> set (flow_writes (trace s)) \<subseteq> {0}"
  from run_ready [OF ready_setup] obtain s' where r: "run cfg dt ts ?s = Inr s'"
    by blast
  have "?P ?s"
    by (simp add: setupInitialConditions_def fresh_def Let_def flow_rate_def)
  from run_invariant [where P = ?P, OF step_flow_log this r] have "?P s'" .
  with r show ?thesis by blast
qed

text \<open>
  On a clock of equal steps at most one step has \<^verbatim>\<open>stop_flow\<close> strictly between \<open>t\<close> and
  \<open>t + dt\<close>, so a run on it makes at most one flow write.
\<close>

lemma flow_edge_unique:
  assumes dt: "0 < dt"
    and k: "flow_edge cfg (real k * dt) dt" and k': "flow_edge cfg (real k' * dt) dt"
  shows "k = k'"
proof -
  have succ: "\<And>n. real n * dt + dt = real (Suc n) * dt" by (simp add: algebra_simps)
  from k k' have "real k * dt < real (Suc k') * dt" "real k' * dt < real (Suc k) * dt"
    unfolding succ [symmetric] by linarith+
  with dt have "k < Suc k'" "k' < Suc k" by simp_all
  then show ?thesis by simp
qed

lemma step_flow_count:
  assumes "actionsAfterTimeStep cfg t dt s = Inr s'"
  shows "length (flow_writes (trace s')) \<le> length (flow_writes (trace s)) + 1"
  using assms by (cases rule: step_cases) (simp_all add: flow_writes_append)

lemma uniform_clock_one_flow_write:
  assumes dt: "0 < dt" and rdy: "ready s"
  shows "\<exists>s'. run cfg dt (ticks dt i j) s = Inr s'
    \<and> length (flow_writes (trace s')) \<le> length (flow_writes (trace s)) + 1"
proof (cases "\<exists>k\<in>{i..<j}. flow_edge cfg (real k * dt) dt")
  case False
  from run_ready [OF rdy] obtain s' where r: "run cfg dt (ticks dt i j) s = Inr s'"
    by blast
  from False have "\<forall>t\<in>set (ticks dt i j). \<not> flow_edge cfg t dt"
    by (auto simp: set_ticks)
  from run_no_flow [OF this r] r show ?thesis by auto
next
  case True
  then obtain k where k: "i \<le> k" "k < j" "flow_edge cfg (real k * dt) dt" by auto
  have other: "\<not> flow_edge cfg (real n * dt) dt" if "n \<noteq> k" for n
    using flow_edge_unique [OF dt _ k(3), of n] that by blast
  have split: "ticks dt i j = ticks dt i k @ [real k * dt] @ ticks dt (Suc k) j"
    using k ticks_split [of i k j dt] ticks_split [of k "Suc k" j dt] ticks_single [of dt k]
    by simp
  from run_ready [OF rdy] obtain s1
    where s1: "run cfg dt (ticks dt i k) s = Inr s1" "ready s1" by blast
  from step_ready [OF s1(2)] obtain s2
    where s2: "actionsAfterTimeStep cfg (real k * dt) dt s1 = Inr s2" "ready s2" by blast
  from run_ready [OF s2(2)] obtain s3
    where s3: "run cfg dt (ticks dt (Suc k) j) s2 = Inr s3" by blast
  have "\<forall>t\<in>set (ticks dt i k). \<not> flow_edge cfg t dt"
    using other by (auto simp: set_ticks)
  from run_no_flow [OF this s1(1)]
  have a: "flow_writes (trace s1) = flow_writes (trace s)" by simp
  have "\<forall>t\<in>set (ticks dt (Suc k) j). \<not> flow_edge cfg t dt"
    using other by (auto simp: set_ticks)
  from run_no_flow [OF this s3]
  have c: "flow_writes (trace s3) = flow_writes (trace s2)" by simp
  have "run cfg dt (ticks dt i j) s = Inr s3"
    unfolding split run_append s1(1) using s2(1) s3 by simp
  with step_flow_count [OF s2(1)] a c show ?thesis by simp
qed

text \<open>
  C2. The claim: for every step size and every \<^verbatim>\<open>stop_flow\<close> the flow rate is set to zero
  on exactly one step, the one with \<open>t < stop_flow \<le> t + dt\<close>. Line 74 tests
  \<open>t < stop_flow\<close> and \<open>t + dt > stop_flow\<close>, both strict, so a \<^verbatim>\<open>stop_flow\<close> that is the
  time of a step is passed over: with a step of 0.125 the call at 0.875 is the step of the
  claim (\<open>0.875 < 1.0 \<le> 1.0\<close>) and does nothing, and in a run of any length the flow rate
  stays at 1 and \<^verbatim>\<open>setVolumeFlowRate\<close> is never called. All the numbers here are binary
  fractions.
\<close>

theorem flow_edge_missed_on_grid:
  "(0.875 :: real) < stop_flow globals \<and> stop_flow globals \<le> 0.875 + 0.125
   \<and> actionsAfterTimeStep globals 0.875 0.125 scene = Inr scene
   \<and> (\<exists>s. run globals 0.125 (ticks 0.125 0 n) scene = Inr s
         \<and> flow_rate s = 1 \<and> flow_writes (trace s) = [])"
proof -
  have sf: "stop_flow globals = real 8 * 0.125" by (simp add: globals_def)
  have a: "(0.875 :: real) < stop_flow globals \<and> stop_flow globals \<le> 0.875 + 0.125"
    by (simp add: globals_def)
  have b: "actionsAfterTimeStep globals 0.875 0.125 scene = Inr scene"
    by (simp add: actionsAfterTimeStep_def globals_def scene_def setup_statics)
  have fr: "flow_rate scene = 1"
    by (simp add: flow_rate_def scene_def setupInitialConditions_def fresh_def Let_def)
  have tr: "trace scene = []" by (simp add: scene_def setup_statics)
  from grid_flow_never_stops [OF _ sf configured_grid(4), of 0 n] obtain s
    where "run globals 0.125 (ticks 0.125 0 n) scene = Inr s"
      "boundaryHandler s = boundaryHandler scene"
      "flow_writes (trace s) = flow_writes (trace scene)"
    by auto
  with fr tr have "run globals 0.125 (ticks 0.125 0 n) scene = Inr s
      \<and> flow_rate s = 1 \<and> flow_writes (trace s) = []"
    by (simp add: flow_rate_def)
  with a b show ?thesis by blast
qed

section \<open>The configured scenario\<close>

text \<open>
  C3. The claim: with the configured constants and a step of 0.0001, the first kick writes
  \<open>+1.0\<close> near 1.5, the second \<open>-1.0\<close> near 1.75, and from 20.0 to 25.0 the floor velocity
  is 0 and stays there. With the clock on multiples of the step, kick number \<open>n\<close> is made by
  call \<open>15001 + 2500 * n\<close>, at time \<open>1.5001 + 0.25 * n\<close>, with velocity \<open>(0, 0, (-1)^n)\<close>,
  for every \<open>n\<close>: the first two kicks are as claimed, and the kicks 74 to 93 fall between
  20.0 and 25.0, each leaving the floor with velocity \<open>+1\<close> or \<open>-1\<close>.
\<close>

theorem configured_kick_times:
  "\<exists>s. run globals 0.0001 (ticks 0.0001 0 (15002 + 2500 * n)) scene = Inr s
     \<and> last (trace s) = (1.5001 + 0.25 * real n, Kick (Vec3D 0 0 ((- 1) ^ n)))
     \<and> floor_velocity s = Vec3D 0 0 ((- 1) ^ n)
     \<and> kick_count s = wrap32 (int n + 1)"
proof -
  have idx: "15000 + n * 2500 + 2 = 15002 + 2500 * n" by simp
  have tm: "real (15000 + n * 2500 + 1) * 0.0001 = 1.5001 + 0.25 * real n"
    by (simp add: algebra_simps)
  from aligned_schedule [OF _ _ configured_grid(1,2,3,4), of n] show ?thesis
    unfolding idx tm by (auto simp: configured_grid minus_one_powi)
qed

section \<open>A missed kick\<close>

text \<open>
  C4. The claim: a kick whose window no step lands in only shifts the schedule, and the
  later kicks still fire. With a step of 0.25 the calls are at 1.5 and 1.75, the two ends
  of the first window, and neither is strictly inside. The run to time 25 then makes no
  kick at all: its log holds only the zero writes of the steps after 20.
\<close>

theorem missed_kick_counterexample:
  "run globals 0.25 (ticks 0.25 0 101) scene = Inr (scene \<lparr> trace := rests (ticks 0.25 81 101) \<rparr>)
   \<and> kicks (rests (ticks 0.25 81 101)) = []"
  by (simp add: actionsAfterTimeStep_def onLastObject_def setVelocity_def globals_def scene_def
      setupInitialConditions_def fresh_def main_domain_def mid_def Let_def ticks_def rests_def
      upt_rec)

text \<open>
  C4, amended. Over any steps none of which is strictly inside the current window, no kick
  fires and the threshold and the counter stay as they are. So once a step is at or after
  the end of the window, and time only advances, no kick fires again: a missed kick ends
  the schedule.
\<close>

theorem missed_kick_ends_schedule:
  assumes "\<forall>t\<in>set ts. t \<le> kick_interval_counter s
      \<or> kick_interval_counter s + pulse_interval cfg \<le> t"
    and "run cfg dt ts s = Inr s'"
  shows "kick_count s' = kick_count s \<and> kick_interval_counter s' = kick_interval_counter s
    \<and> kicks (trace s') = kicks (trace s)"
proof -
  from assms(1) have "\<forall>t\<in>set ts. \<not> in_kick_window cfg s t" by auto
  from run_no_kick [OF this assms(2)] show ?thesis .
qed

theorem missed_kick_ends_schedule_witness:
  "\<exists>s'. run globals 0.25 (ticks 0.25 0 400) scene = Inr s'
     \<and> kick_count s' = 0 \<and> kick_interval_counter s' = 1.5 \<and> kicks (trace s') = []"
proof -
  from run_ready [of scene globals "0.25" "ticks 0.25 0 400"] obtain s'
    where r: "run globals 0.25 (ticks 0.25 0 400) scene = Inr s'"
    by (auto simp: scene_def ready_setup)
  have st: "kick_interval_counter scene = 1.5" "pulse_interval globals = 0.25"
    "kick_count scene = 0" "trace scene = []"
    by (simp_all add: scene_def setup_statics globals_def)
  have "\<forall>t\<in>set (ticks 0.25 0 400). t \<le> kick_interval_counter scene
      \<or> kick_interval_counter scene + pulse_interval globals \<le> t"
  proof
    fix t assume "t \<in> set (ticks 0.25 0 400)"
    then obtain k :: nat where t: "t = real k * 0.25" by (auto simp: set_ticks)
    have "k \<le> 6 \<or> 7 \<le> k" by arith
    then have "real k \<le> 6 \<or> 7 \<le> real k" by auto
    with t st show "t \<le> kick_interval_counter scene
      \<or> kick_interval_counter scene + pulse_interval globals \<le> t" by auto
  qed
  from missed_kick_ends_schedule [OF this r] r st show ?thesis by auto
qed

section \<open>Kick signs and the threshold\<close>

text \<open>
  The tally of a run from the setup, with \<open>K\<close> the number of kicks made so far: the
  threshold is \<open>1.5 + K * pulse_interval\<close>, the counter is \<open>K\<close> wrapped to 32 bits, and kick
  number \<open>n\<close> had the velocity \<open>(0, 0, amplitude * (-1)^n)\<close>. The floor stays the last wall.
\<close>

lemma step_tally:
  assumes "kick_interval_counter s = 1.5 + real (length (kicks (trace s))) * pulse_interval cfg
      \<and> kick_count s = wrap32 (int (length (kicks (trace s))))
      \<and> kicks (trace s) = map (kick_velocity cfg) [0..<length (kicks (trace s))]"
    and "actionsAfterTimeStep cfg t dt s = Inr s'"
  shows "kick_interval_counter s' = 1.5 + real (length (kicks (trace s'))) * pulse_interval cfg
      \<and> kick_count s' = wrap32 (int (length (kicks (trace s'))))
      \<and> kicks (trace s') = map (kick_velocity cfg) [0..<length (kicks (trace s'))]"
  using assms(2,1) wrap32_succ [of "int (length (kicks (trace s)))"]
  by (cases rule: step_cases)
    (simp_all add: kicks_append kick_velocity_def minus_one_powi_wrap32 algebra_simps)

lemma run_tally:
  assumes "run cfg dt ts (setupInitialConditions cfg d fresh) = Inr s"
  shows "kick_interval_counter s = 1.5 + real (length (kicks (trace s))) * pulse_interval cfg
      \<and> kick_count s = wrap32 (int (length (kicks (trace s))))
      \<and> kicks (trace s) = map (kick_velocity cfg) [0..<length (kicks (trace s))]"
proof -
  let ?s = "setupInitialConditions cfg d fresh"
  let ?P = "\<lambda>s. kick_interval_counter s
        = 1.5 + real (length (kicks (trace s))) * pulse_interval cfg
      \<and> kick_count s = wrap32 (int (length (kicks (trace s))))
      \<and> kicks (trace s) = map (kick_velocity cfg) [0..<length (kicks (trace s))]"
  have "?P ?s" by (simp add: setup_statics wrap32_def)
  from run_invariant [where P = ?P, OF step_tally this assms] show ?thesis .
qed

lemma step_floor:
  assumes "wallHandler s \<noteq> [] \<and> boundaryHandler s \<noteq> []
      \<and> w_shape (last (wallHandler s)) = sh"
    and "actionsAfterTimeStep cfg t dt s = Inr s'"
  shows "wallHandler s' \<noteq> [] \<and> boundaryHandler s' \<noteq> []
      \<and> w_shape (last (wallHandler s')) = sh"
  using assms(2,1) by (cases rule: step_cases) (auto simp: setVelocity_def)

lemma run_floor:
  assumes "run cfg dt ts (setupInitialConditions cfg d fresh) = Inr s"
  shows "wallHandler s \<noteq> [] \<and> boundaryHandler s \<noteq> []
      \<and> w_shape (last (wallHandler s)) = InfiniteWall (Vec3D 0 0 (- 1)) (Vec3D 0 0 0)"
proof -
  let ?s = "setupInitialConditions cfg d fresh"
  let ?P = "\<lambda>s. wallHandler s \<noteq> [] \<and> boundaryHandler s \<noteq> []
      \<and> w_shape (last (wallHandler s)) = InfiniteWall (Vec3D 0 0 (- 1)) (Vec3D 0 0 0)"
  have "?P ?s" by (simp add: setupInitialConditions_def fresh_def Let_def)
  from run_invariant [where P = ?P, OF step_floor this assms] show ?thesis .
qed

text \<open>The call after a run from the setup, when \<open>n\<close> kicks were made.\<close>

lemma next_kick:
  assumes "run cfg dt ts (setupInitialConditions cfg d fresh) = Inr s"
  shows "kicks (trace s) = map (kick_velocity cfg) [0..<length (kicks (trace s))]
    \<and> (\<exists>s'. actionsAfterTimeStep cfg t dt s = Inr s'
        \<and> (if \<not> flow_edge cfg t dt \<and> in_kick_window cfg s t
           then wallHandler s' = butlast (wallHandler s) @
                  [setVelocity (kick_velocity cfg (length (kicks (trace s)))) (last (wallHandler s))]
              \<and> floor_velocity s' = kick_velocity cfg (length (kicks (trace s)))
              \<and> w_shape (last (wallHandler s')) = InfiniteWall (Vec3D 0 0 (- 1)) (Vec3D 0 0 0)
              \<and> kicks (trace s') = kicks (trace s) @ [kick_velocity cfg (length (kicks (trace s)))]
           else kicks (trace s') = kicks (trace s)))"
proof -
  note tally = run_tally [OF assms]
  note floor = run_floor [OF assms]
  have v: "Vec3D 0 0 (oscillation_amplitude cfg * ((- 1) powi kick_count s))
      = kick_velocity cfg (length (kicks (trace s)))"
    using tally by (simp add: kick_velocity_def minus_one_powi_wrap32)
  from floor have "ready s" by (simp add: ready_def)
  from step_ready [OF this] obtain s' where s': "actionsAfterTimeStep cfg t dt s = Inr s'"
    by blast
  from s' have "if \<not> flow_edge cfg t dt \<and> in_kick_window cfg s t
           then wallHandler s' = butlast (wallHandler s) @
                  [setVelocity (kick_velocity cfg (length (kicks (trace s)))) (last (wallHandler s))]
              \<and> floor_velocity s' = kick_velocity cfg (length (kicks (trace s)))
              \<and> w_shape (last (wallHandler s')) = InfiniteWall (Vec3D 0 0 (- 1)) (Vec3D 0 0 0)
              \<and> kicks (trace s') = kicks (trace s) @ [kick_velocity cfg (length (kicks (trace s)))]
           else kicks (trace s') = kicks (trace s)"
    using floor v
    by (cases rule: step_cases)
      (auto simp: kicks_append floor_velocity_def setVelocity_def)
  with s' tally show ?thesis by blast
qed

text \<open>
  C5. Every run from the setup succeeds. After a run in which \<open>n\<close> kicks were made, kick
  number \<open>i\<close> has written \<open>(0, 0, amplitude * (-1)^i)\<close> for every \<open>i < n\<close>, and the next call
  succeeds: if its time is in the kick window and not on the flow edge it is kick number
  \<open>n\<close>, which sets the velocity of the last wall, the floor, to
  \<open>(0, 0, amplitude * (-1)^n)\<close> and leaves the other walls alone; any other call makes no
  kick. So the signs alternate by the parity of the number of the kick. The parity of the
  32-bit counter is that of \<open>n\<close> also after a wrap, and the amplitude is the same on every
  call, since nothing assigns to the globals.
\<close>

theorem kick_signs_alternate:
  "\<exists>s. run cfg dt ts (setupInitialConditions cfg d fresh) = Inr s
    \<and> kicks (trace s) = map (kick_velocity cfg) [0..<length (kicks (trace s))]
    \<and> (\<exists>s'. actionsAfterTimeStep cfg t dt s = Inr s'
        \<and> (if \<not> flow_edge cfg t dt \<and> in_kick_window cfg s t
           then wallHandler s' = butlast (wallHandler s) @
                  [setVelocity (kick_velocity cfg (length (kicks (trace s)))) (last (wallHandler s))]
              \<and> floor_velocity s' = kick_velocity cfg (length (kicks (trace s)))
              \<and> w_shape (last (wallHandler s')) = InfiniteWall (Vec3D 0 0 (- 1)) (Vec3D 0 0 0)
              \<and> kicks (trace s') = kicks (trace s) @ [kick_velocity cfg (length (kicks (trace s)))]
           else kicks (trace s') = kicks (trace s)))"
proof -
  from run_ready [OF ready_setup] obtain s
    where r: "run cfg dt ts (setupInitialConditions cfg d fresh) = Inr s" by blast
  from next_kick [OF r] r show ?thesis by blast
qed

theorem kick_signs_alternate_witness:
  "\<exists>s s'. run globals 0.125 (ticks 0.125 0 14) (setupInitialConditions globals main_domain fresh)
       = Inr s
     \<and> kicks (trace s) = [Vec3D 0 0 1]
     \<and> floor_velocity s = Vec3D 0 0 1
     \<and> in_kick_window globals s 1.875
     \<and> actionsAfterTimeStep globals 1.875 0.125 s = Inr s'
     \<and> floor_velocity s' = Vec3D 0 0 (- 1)
     \<and> kicks (trace s') = [Vec3D 0 0 1, Vec3D 0 0 (- 1)]"
proof -
  let ?s0 = "setupInitialConditions globals main_domain fresh"
  from run_ready [OF ready_setup, of globals "0.125" "ticks 0.125 0 14" globals main_domain fresh]
  obtain s where r: "run globals 0.125 (ticks 0.125 0 14) ?s0 = Inr s" by blast
  from r have e: "kicks (trace s) = [Vec3D 0 0 1]" "floor_velocity s = Vec3D 0 0 1"
    "kick_interval_counter s = 1.75"
    by (auto simp: actionsAfterTimeStep_def onLastObject_def setVelocity_def globals_def
        setupInitialConditions_def fresh_def main_domain_def mid_def Let_def ticks_def upt_rec
        wrap32_def floor_velocity_def)
  have w: "in_kick_window globals s 1.875" "\<not> flow_edge globals 1.875 0.125"
    using e(3) by (simp_all add: globals_def)
  from kick_signs_alternate [of globals "0.125" "ticks 0.125 0 14" main_domain "1.875"] r w e(1)
  obtain s' where "actionsAfterTimeStep globals 1.875 0.125 s = Inr s'"
      "floor_velocity s' = kick_velocity globals 1"
      "kicks (trace s') = [Vec3D 0 0 1, kick_velocity globals 1]"
    by auto
  moreover have "kick_velocity globals 1 = Vec3D 0 0 (- 1)"
    by (simp add: kick_velocity_def globals_def)
  ultimately show ?thesis using r e w(1) by auto
qed

text \<open>
  C6. The claim: after every step the threshold is the initial threshold plus
  \<^verbatim>\<open>kick_count\<close> times the pulse interval. The counter has 32 bits. With a step of 0.125,
  where every time and every threshold is a binary fraction, kick number 2147483647 is made
  by call 4294967307; it takes the threshold to 536870913.5 and wraps the counter to
  -2147483648, and the equation fails.
\<close>

theorem threshold_wraps_counterexample:
  "statics (run globals 0.125 (ticks 0.125 0 4294967308) scene)
     = Some (- 2147483648, 536870913.5)
   \<and> (536870913.5 :: real) \<noteq> 1.5 + real_of_int (- 2147483648) * pulse_interval globals"
proof -
  have pi: "pulse_interval globals = real 2 * 0.125" by (simp add: globals_def)
  have sf: "stop_flow globals = real 8 * 0.125" by (simp add: globals_def)
  have thr: "kick_interval_counter scene = real 12 * 0.125"
    by (simp add: scene_def setup_statics)
  from aligned_schedule [OF _ _ pi sf thr configured_grid(4), of 2147483647] obtain s
    where "run globals 0.125 (ticks 0.125 0 4294967308) scene = Inr s"
      "kick_count s = - 2147483648" "kick_interval_counter s = 536870913.5"
    by (auto simp: configured_grid wrap32_def)
  then show ?thesis by (simp add: globals_def)
qed

lemma quarter_binary64:
  assumes "k < 2147483648"
  shows "binary64 (1.5 + real k * 0.25)"
proof -
  have "1.5 + real k * 0.25 = of_int (6 + int k) * 2 powi (- 2)"
    by (simp add: power_int_def field_simps)
  moreover have "\<bar>6 + int k\<bar> < 2 ^ 53" using assms by simp
  ultimately show ?thesis unfolding binary64_def by (intro exI [of _ "6 + int k"] exI [of _ "- 2"]) simp
qed

text \<open>The statics after a run from the setup and after the call that follows it.\<close>

lemma next_threshold:
  assumes "run cfg dt ts (setupInitialConditions cfg d fresh) = Inr s"
    and "pulse_interval cfg = 0.25"
    and "kick_interval_counter s < 1.5 + 2147483647 * pulse_interval cfg"
  shows "kick_interval_counter s = 1.5 + real_of_int (kick_count s) * pulse_interval cfg
    \<and> kick_count s = int (length (kicks (trace s)))
    \<and> binary64 (kick_interval_counter s)
    \<and> (\<exists>s'. actionsAfterTimeStep cfg t dt s = Inr s'
        \<and> (if \<not> flow_edge cfg t dt \<and> in_kick_window cfg s t
           then kick_interval_counter s' = kick_interval_counter s + pulse_interval cfg
              \<and> kick_count s' = kick_count s + 1
           else kick_interval_counter s' = kick_interval_counter s
              \<and> kick_count s' = kick_count s)
        \<and> kick_interval_counter s' = 1.5 + real_of_int (kick_count s') * pulse_interval cfg
        \<and> binary64 (kick_interval_counter s'))"
proof -
  let ?K = "length (kicks (trace s))"
  note tally = run_tally [OF assms(1)]
  from tally assms(2,3) have K: "?K < 2147483647" by simp
  then have kc: "kick_count s = int ?K" "wrap32 (kick_count s + 1) = kick_count s + 1"
    using tally by (simp_all add: wrap32_id)
  have thr: "kick_interval_counter s = 1.5 + real ?K * 0.25"
    using tally assms(2) by simp
  have b: "binary64 (kick_interval_counter s)"
    unfolding thr using K by (intro quarter_binary64) simp
  have b': "binary64 (kick_interval_counter s + 0.25)"
  proof -
    have "kick_interval_counter s + 0.25 = 1.5 + real (Suc ?K) * 0.25"
      by (simp add: thr algebra_simps)
    moreover have "binary64 (1.5 + real (Suc ?K) * 0.25)"
      using K by (intro quarter_binary64) simp
    ultimately show ?thesis by simp
  qed
  have inv: "kick_interval_counter s = 1.5 + real_of_int (kick_count s) * pulse_interval cfg"
    using thr kc(1) assms(2) by simp
  have b'': "binary64 (kick_interval_counter s + pulse_interval cfg)"
    unfolding assms(2) by (rule b')
  from run_floor [OF assms(1)] have "ready s" by (simp add: ready_def)
  from step_ready [OF this] obtain s' where s': "actionsAfterTimeStep cfg t dt s = Inr s'"
    by blast
  from s' have "(if \<not> flow_edge cfg t dt \<and> in_kick_window cfg s t
           then kick_interval_counter s' = kick_interval_counter s + pulse_interval cfg
              \<and> kick_count s' = kick_count s + 1
           else kick_interval_counter s' = kick_interval_counter s
              \<and> kick_count s' = kick_count s)
        \<and> kick_interval_counter s' = 1.5 + real_of_int (kick_count s') * pulse_interval cfg
        \<and> binary64 (kick_interval_counter s')"
  proof (cases rule: step_cases)
    case flow
    with inv b show ?thesis by simp
  next
    case kick
    have "1.5 + real_of_int (kick_count s + 1) * pulse_interval cfg
        = 1.5 + real_of_int (kick_count s) * pulse_interval cfg + pulse_interval cfg"
      by (simp add: distrib_right)
    with kick inv b'' kc(2) show ?thesis by simp
  next
    case rest
    with inv b show ?thesis by simp
  next
    case idle
    with inv b show ?thesis by simp
  qed
  with s' inv kc(1) b show ?thesis by blast
qed

text \<open>
  C6, amended. With the pulse interval of the program, 0.25, and as long as the threshold
  is below \<open>1.5 + 2147483647 * 0.25\<close>, that is, fewer than 2147483647 kicks were made:
  every run from the setup succeeds, and after it the threshold is 1.5 plus
  \<^verbatim>\<open>kick_count\<close> times the pulse interval, and \<^verbatim>\<open>kick_count\<close> is the number of kicks
  made. The next call succeeds; if its time is in the kick window and not on the flow edge
  it adds exactly one pulse interval to the threshold and exactly one to the counter, any
  other call changes neither, and the equation holds again afterwards. Every value the threshold takes is a double, so the
  additions of line 78 round nothing.
\<close>

theorem threshold_invariant:
  assumes "pulse_interval cfg = 0.25"
  shows "\<exists>s. run cfg dt ts (setupInitialConditions cfg d fresh) = Inr s
    \<and> (kick_interval_counter s < 1.5 + 2147483647 * pulse_interval cfg \<longrightarrow>
        kick_interval_counter s = 1.5 + real_of_int (kick_count s) * pulse_interval cfg
      \<and> kick_count s = int (length (kicks (trace s)))
      \<and> binary64 (kick_interval_counter s)
      \<and> (\<exists>s'. actionsAfterTimeStep cfg t dt s = Inr s'
          \<and> (if \<not> flow_edge cfg t dt \<and> in_kick_window cfg s t
             then kick_interval_counter s' = kick_interval_counter s + pulse_interval cfg
                \<and> kick_count s' = kick_count s + 1
             else kick_interval_counter s' = kick_interval_counter s
                \<and> kick_count s' = kick_count s)
          \<and> kick_interval_counter s' = 1.5 + real_of_int (kick_count s') * pulse_interval cfg
          \<and> binary64 (kick_interval_counter s')))"
proof -
  from run_ready [OF ready_setup] obtain s
    where r: "run cfg dt ts (setupInitialConditions cfg d fresh) = Inr s" by blast
  from next_threshold [OF r assms] r show ?thesis by blast
qed

theorem threshold_invariant_witness:
  "\<exists>s s'. run globals 0.125 (ticks 0.125 0 16) (setupInitialConditions globals main_domain fresh)
       = Inr s
     \<and> kick_interval_counter s = 2 \<and> kick_count s = 2
     \<and> actionsAfterTimeStep globals 2.125 0.125 s = Inr s'
     \<and> kick_interval_counter s' = 2.25 \<and> kick_count s' = 3
     \<and> binary64 (kick_interval_counter s')"
proof -
  let ?s0 = "setupInitialConditions globals main_domain fresh"
  from run_ready [OF ready_setup, of globals "0.125" "ticks 0.125 0 16" globals main_domain fresh]
  obtain s where r: "run globals 0.125 (ticks 0.125 0 16) ?s0 = Inr s" by blast
  from r have e: "kick_interval_counter s = 2" "kick_count s = 2"
    by (auto simp: actionsAfterTimeStep_def onLastObject_def setVelocity_def globals_def
        setupInitialConditions_def fresh_def main_domain_def mid_def Let_def ticks_def upt_rec
        wrap32_def)
  have p: "pulse_interval globals = 0.25" by (simp add: globals_def)
  have lt: "kick_interval_counter s < 1.5 + 2147483647 * pulse_interval globals"
    by (simp add: e p)
  have w: "in_kick_window globals s 2.125" "\<not> flow_edge globals 2.125 0.125"
    using e(1) by (simp_all add: globals_def)
  from threshold_invariant [OF p, of "0.125" "ticks 0.125 0 16" main_domain "2.125"]
  obtain s2 where r2: "run globals 0.125 (ticks 0.125 0 16) ?s0 = Inr s2"
    and imp: "kick_interval_counter s2 < 1.5 + 2147483647 * pulse_interval globals \<longrightarrow>
        kick_interval_counter s2 = 1.5 + real_of_int (kick_count s2) * pulse_interval globals
      \<and> kick_count s2 = int (length (kicks (trace s2)))
      \<and> binary64 (kick_interval_counter s2)
      \<and> (\<exists>s'. actionsAfterTimeStep globals 2.125 0.125 s2 = Inr s'
          \<and> (if \<not> flow_edge globals 2.125 0.125 \<and> in_kick_window globals s2 2.125
             then kick_interval_counter s' = kick_interval_counter s2 + pulse_interval globals
                \<and> kick_count s' = kick_count s2 + 1
             else kick_interval_counter s' = kick_interval_counter s2
                \<and> kick_count s' = kick_count s2)
          \<and> kick_interval_counter s' = 1.5 + real_of_int (kick_count s') * pulse_interval globals
          \<and> binary64 (kick_interval_counter s'))"
    by blast
  from r r2 have "s2 = s" by simp
  with imp lt obtain s'
    where s': "actionsAfterTimeStep globals 2.125 0.125 s = Inr s'"
      and c: "if \<not> flow_edge globals 2.125 0.125 \<and> in_kick_window globals s 2.125
           then kick_interval_counter s' = kick_interval_counter s + pulse_interval globals
              \<and> kick_count s' = kick_count s + 1
           else kick_interval_counter s' = kick_interval_counter s
              \<and> kick_count s' = kick_count s"
      and b: "binary64 (kick_interval_counter s')"
    by blast
  from c w have "kick_interval_counter s' = kick_interval_counter s + pulse_interval globals"
    "kick_count s' = kick_count s + 1"
    by simp_all
  then have "kick_interval_counter s' = 2.25" "kick_count s' = 3"
    by (simp_all add: e p)
  with r e s' b show ?thesis by blast
qed

section \<open>The scene\<close>

text \<open>
  C7. The claim: the tracer is at the midpoint raised by twice its radius,
  \<open>(mid.X, mid.Y, mid.Z + 2 * big_particle_radius)\<close>. Line 40 passes
  \<open>2 * big_particle_radius\<close> alone as the third coordinate. With the bounds of \<^verbatim>\<open>main\<close> the
  tracer is at height 0.16, and the claim's formula gives 1.66.
\<close>

theorem tracer_counterexample:
  "map p_position (particleHandler scene) = [Vec3D 0.5 0.5 0.16]
   \<and> map p_position (particleHandler scene) \<noteq>
       [Vec3D (X (mid main_domain)) (Y (mid main_domain))
          (Z (mid main_domain) + 2 * big_particle_radius globals)]"
  by (simp add: scene_def setupInitialConditions_def fresh_def globals_def main_domain_def
      mid_def Let_def)

text \<open>
  C7, amended. The setup adds exactly one particle: it has the large radius, zero velocity,
  the horizontal coordinates of the midpoint and the height \<open>2 * big_particle_radius\<close>,
  that is twice its radius above the floor plane \<open>z = 0\<close>, whatever the vertical bounds.
\<close>

theorem tracer_placement:
  "particleHandler (setupInitialConditions cfg d fresh) =
     [\<lparr> p_radius = big_particle_radius cfg,
        p_position = Vec3D (X (mid d)) (Y (mid d)) (2 * big_particle_radius cfg),
        p_velocity = Vec3D 0 0 0 \<rparr>]"
  by (simp add: setupInitialConditions_def fresh_def Let_def)

text \<open>
  C8. The first wall added is the axisymmetric wall: its axis has direction \<open>(0, 0, 1)\<close>
  and passes through \<open>(mid.X, mid.Y, 0)\<close>, so through the midpoint, and its one object has
  normal \<open>(1, 0, 0)\<close> at the radial distance \<open>(xMax - xMin) / 4\<close>. There is exactly one
  insertion boundary; its cuboid has its centre at the midpoint and half-width \<^verbatim>\<open>eps\<close> on
  each axis, and its flow rate is 1, which is positive.
\<close>

theorem side_wall_and_insertion_region:
  "w_shape (wallHandler (setupInitialConditions cfg d fresh) ! 0) =
     AxisymmetricIntersectionOfWalls (Vec3D (X (mid d)) (Y (mid d)) 0) (Vec3D 0 0 1)
       [(Vec3D 1 0 0, Vec3D ((xMax d - xMin d) / 4) 0 0)]
   \<and> length (boundaryHandler (setupInitialConditions cfg d fresh)) = 1
   \<and> centre (boundaryHandler (setupInitialConditions cfg d fresh) ! 0) = mid d
   \<and> half_width (boundaryHandler (setupInitialConditions cfg d fresh) ! 0)
       = Vec3D (eps cfg) (eps cfg) (eps cfg)
   \<and> volumeFlowRate (boundaryHandler (setupInitialConditions cfg d fresh) ! 0) = 1
   \<and> 0 < volumeFlowRate (boundaryHandler (setupInitialConditions cfg d fresh) ! 0)"
  by (simp add: setupInitialConditions_def fresh_def Let_def centre_def half_width_def mid_def)

section \<open>One action per call\<close>

text \<open>
  C9. A successful call adds at most one entry to the log. If the flow edge holds, the
  entry is the flow write and the counter, the threshold and the walls are unchanged, also
  when the time is inside the kick window. Otherwise, if the time is inside the window, the
  entry is the kick and the boundaries are unchanged. Otherwise, if the time is after
  \<^verbatim>\<open>stop_kick\<close>, the entry is the zero write and the counter, the threshold and the
  boundaries are unchanged. Otherwise the state is unchanged.
\<close>

theorem one_action_per_step:
  assumes "actionsAfterTimeStep cfg t dt s = Inr s'"
  shows "length (trace s') \<le> length (trace s) + 1
    \<and> (flow_edge cfg t dt \<longrightarrow>
         trace s' = trace s @ [(t, StopFlow 0)]
         \<and> kick_count s' = kick_count s
         \<and> kick_interval_counter s' = kick_interval_counter s
         \<and> wallHandler s' = wallHandler s)
    \<and> (\<not> flow_edge cfg t dt \<and> in_kick_window cfg s t \<longrightarrow>
         trace s' = trace s @
           [(t, Kick (Vec3D 0 0 (oscillation_amplitude cfg * ((- 1) powi kick_count s))))]
         \<and> kick_count s' = wrap32 (kick_count s + 1)
         \<and> kick_interval_counter s' = kick_interval_counter s + pulse_interval cfg
         \<and> boundaryHandler s' = boundaryHandler s)
    \<and> (\<not> flow_edge cfg t dt \<and> \<not> in_kick_window cfg s t \<and> t > stop_kick cfg \<longrightarrow>
         trace s' = trace s @ [(t, Rest (Vec3D 0 0 0))]
         \<and> kick_count s' = kick_count s
         \<and> kick_interval_counter s' = kick_interval_counter s
         \<and> boundaryHandler s' = boundaryHandler s)
    \<and> (\<not> flow_edge cfg t dt \<and> \<not> in_kick_window cfg s t \<and> \<not> t > stop_kick cfg \<longrightarrow> s' = s)"
  using assms by (cases rule: step_cases) simp_all

theorem one_action_per_step_witness:
  "actionsAfterTimeStep (globals \<lparr> stop_flow := 1.6 \<rparr>) 1.55 0.1 scene
     = Inr (scene \<lparr> boundaryHandler := [setVolumeFlowRate 0 (last (boundaryHandler scene))],
                    trace := [(1.55, StopFlow 0)] \<rparr>)
   \<and> in_kick_window (globals \<lparr> stop_flow := 1.6 \<rparr>) scene 1.55
   \<and> flow_edge (globals \<lparr> stop_flow := 1.6 \<rparr>) 1.55 0.1
   \<and> kick_count (scene \<lparr> boundaryHandler := [setVolumeFlowRate 0 (last (boundaryHandler scene))],
                    trace := [(1.55, StopFlow 0)] \<rparr>) = 0"
proof -
  let ?cfg = "globals \<lparr> stop_flow := 1.6 \<rparr>"
  let ?s' = "scene \<lparr> boundaryHandler := [setVolumeFlowRate 0 (last (boundaryHandler scene))],
                    trace := [(1.55, StopFlow 0)] \<rparr>"
  have run: "actionsAfterTimeStep ?cfg 1.55 0.1 scene = Inr ?s'"
    by (simp add: actionsAfterTimeStep_def onLastObject_def globals_def scene_def fresh_def
        setupInitialConditions_def Let_def)
  have win: "in_kick_window ?cfg scene 1.55"
    by (simp add: globals_def scene_def fresh_def setupInitialConditions_def Let_def)
  have edge: "flow_edge ?cfg 1.55 0.1"
    by (simp add: globals_def)
  from one_action_per_step [OF run] edge have "kick_count ?s' = kick_count scene"
    by blast
  then have "kick_count ?s' = 0"
    by (simp add: scene_def fresh_def setupInitialConditions_def Let_def)
  with run win edge show ?thesis by blast
qed

section \<open>The velocities written\<close>

lemma step_written:
  assumes "wallHandler s \<noteq> []
      \<and> (\<forall>v\<in>set (velocities (trace s)). X v = 0 \<and> Y v = 0
           \<and> (Z v = 0 \<or> Z v = oscillation_amplitude cfg \<or> Z v = - oscillation_amplitude cfg))
      \<and> floor_velocity s = last (Vec3D 0 0 0 # velocities (trace s))
      \<and> butlast (wallHandler s) = ws \<and> w_shape (last (wallHandler s)) = sh"
    and "actionsAfterTimeStep cfg t dt s = Inr s'"
  shows "wallHandler s' \<noteq> []
      \<and> (\<forall>v\<in>set (velocities (trace s')). X v = 0 \<and> Y v = 0
           \<and> (Z v = 0 \<or> Z v = oscillation_amplitude cfg \<or> Z v = - oscillation_amplitude cfg))
      \<and> floor_velocity s' = last (Vec3D 0 0 0 # velocities (trace s'))
      \<and> butlast (wallHandler s') = ws \<and> w_shape (last (wallHandler s')) = sh"
  using assms(2,1) minus_one_powi_cases [of "kick_count s"]
  by (cases rule: step_cases)
    (auto simp: velocities_append floor_velocity_def setVelocity_def)

text \<open>
  C10. In every run from the setup, each velocity written has \<open>x\<close> and \<open>y\<close> zero and \<open>z\<close>
  equal to 0, to the amplitude or to minus the amplitude. The wall written to is always the
  last one, the floor (normal \<open>(0, 0, -1)\<close> through the origin), whose velocity is the last
  value written, or zero when nothing was written yet; the other walls are as the setup
  left them.
\<close>

theorem written_velocities:
  "\<exists>s'. run cfg dt ts (setupInitialConditions cfg d fresh) = Inr s'
     \<and> (\<forall>v\<in>set (velocities (trace s')). X v = 0 \<and> Y v = 0
          \<and> (Z v = 0 \<or> Z v = oscillation_amplitude cfg \<or> Z v = - oscillation_amplitude cfg))
     \<and> floor_velocity s' = last (Vec3D 0 0 0 # velocities (trace s'))
     \<and> butlast (wallHandler s') = butlast (wallHandler (setupInitialConditions cfg d fresh))
     \<and> w_shape (last (wallHandler s')) = InfiniteWall (Vec3D 0 0 (- 1)) (Vec3D 0 0 0)"
proof -
  let ?s = "setupInitialConditions cfg d fresh"
  let ?P = "\<lambda>s. wallHandler s \<noteq> []
      \<and> (\<forall>v\<in>set (velocities (trace s)). X v = 0 \<and> Y v = 0
           \<and> (Z v = 0 \<or> Z v = oscillation_amplitude cfg \<or> Z v = - oscillation_amplitude cfg))
      \<and> floor_velocity s = last (Vec3D 0 0 0 # velocities (trace s))
      \<and> butlast (wallHandler s) = butlast (wallHandler ?s)
      \<and> w_shape (last (wallHandler s)) = InfiniteWall (Vec3D 0 0 (- 1)) (Vec3D 0 0 0)"
  from run_ready [OF ready_setup] obtain s' where r: "run cfg dt ts ?s = Inr s'"
    by blast
  have "?P ?s"
    by (simp add: setupInitialConditions_def fresh_def Let_def floor_velocity_def)
  from run_invariant [where P = ?P, OF step_written this r] have "?P s'" .
  with r show ?thesis by blast
qed

theorem written_velocities_witness:
  "\<exists>s'. run globals 0.125 (ticks 0.125 0 16) (setupInitialConditions globals main_domain fresh)
       = Inr s'
     \<and> velocities (trace s') = [Vec3D 0 0 1, Vec3D 0 0 (- 1)]
     \<and> Vec3D 0 0 (- 1) \<in> set (velocities (trace s'))
     \<and> Z (Vec3D 0 0 (- 1)) = - oscillation_amplitude globals"
proof -
  from written_velocities [of globals "0.125" "ticks 0.125 0 16" main_domain] obtain s'
    where r: "run globals 0.125 (ticks 0.125 0 16) (setupInitialConditions globals main_domain fresh)
       = Inr s'"
      and w: "\<forall>v\<in>set (velocities (trace s')). X v = 0 \<and> Y v = 0
          \<and> (Z v = 0 \<or> Z v = oscillation_amplitude globals
              \<or> Z v = - oscillation_amplitude globals)"
    by blast
  from r have v: "velocities (trace s') = [Vec3D 0 0 1, Vec3D 0 0 (- 1)]"
    by (auto simp: actionsAfterTimeStep_def onLastObject_def setVelocity_def globals_def
        setupInitialConditions_def fresh_def main_domain_def mid_def Let_def ticks_def upt_rec
        wrap32_def)
  then have m: "Vec3D 0 0 (- 1) \<in> set (velocities (trace s'))" by simp
  with w have "Z (Vec3D 0 0 (- 1)) = 0 \<or> Z (Vec3D 0 0 (- 1)) = oscillation_amplitude globals
      \<or> Z (Vec3D 0 0 (- 1)) = - oscillation_amplitude globals" by blast
  then have "Z (Vec3D 0 0 (- 1)) = - oscillation_amplitude globals"
    by (simp add: globals_def)
  with r v m show ?thesis by blast
qed

end
